theory Spec2Isabelle
  imports Main
begin

section \<open>Exceptions, outcomes of external calls, observable events\<close>

text \<open>
  The entry point \<^verbatim>\<open>watched_dir/main.py\<close> drives three collaborators that live in
  other modules: \<^verbatim>\<open>DatabaseManager\<close>, \<^verbatim>\<open>FolderWatcher\<close> and the logging setup.
  What a call into them does to the control flow of \<^verbatim>\<open>main.py\<close> is one of three things:
  it returns a value, it raises, or a termination signal is delivered while it runs, in
  which case the interpreter runs the installed handler in the main thread and the
  handler's exception comes out of the call.

  Python's exception classes are kept as far as \<^verbatim>\<open>main.py\<close> tells them apart:
  \<^verbatim>\<open>except Exception\<close> catches the subclasses of \<^verbatim>\<open>Exception\<close> only, and
  \<^verbatim>\<open>KeyboardInterrupt\<close> and \<^verbatim>\<open>SystemExit\<close> derive from \<^verbatim>\<open>BaseException\<close>.
  \<open>Exception c m\<close> is an instance of a subclass \<open>c\<close> of \<^verbatim>\<open>Exception\<close> whose
  \<^verbatim>\<open>str(e)\<close> is \<open>m\<close>.
\<close>

datatype exn = KeyboardInterrupt | SystemExit int | Exception string string

datatype signum = SIGINT | SIGTERM

datatype 'a outcome = Returns 'a | Raises exn | Signalled signum

datatype level = INFO | ERROR

datatype call =
    NewDatabaseManager | Connect | CreateAllTables | Disconnect
  | NewFolderWatcher | SetupFolders | ProcessExistingFiles | StartWatching | StopWatching
  | Sleep

datatype phase = Sweep | Live

datatype event =
    Log level string
  | Call call
  | Signal signum
  | Examine phase string

datatype wstate = Stopped | Sweeping | Watching

datatype verdict = Processed | Failed string

type_synonym entry = "string \<times> string \<times> verdict"

type_synonym batch = "string \<times> string \<times> string list"

record watched_file =
  fpath :: string
  fbytes :: string

text \<open>
  The environment of one run of the process: the outcome of every call that leaves
  \<^verbatim>\<open>main.py\<close>, the files found by the sweep and delivered by the filesystem listener,
  and the format-specific parts of the pipeline (fingerprint, parser, whether the store
  accepts a batch). \<open>sleep_out i\<close> is the outcome of the \<open>i\<close>-th \<^verbatim>\<open>time.sleep(1)\<close>, and
  \<open>fs_events i\<close> the files the listener reports during it.
\<close>

record env =
  setup_logging_out :: "exn option"
  new_manager_out :: "unit outcome"
  connect_out :: "bool outcome"
  create_all_tables_out :: "bool outcome"
  disconnect_out :: "unit outcome"
  new_watcher_out :: "unit outcome"
  setup_folders_out :: "unit outcome"
  process_existing_files_out :: "unit outcome"
  start_watching_out :: "unit outcome"
  stop_watching_out :: "exn option"
  sleep_out :: "nat \<Rightarrow> unit outcome"
  existing_files :: "watched_file list"
  fs_events :: "nat \<Rightarrow> watched_file list"
  fingerprint :: "string \<Rightarrow> string"
  parse :: "string \<Rightarrow> string + string list"
  persist :: "batch list \<Rightarrow> string list \<Rightarrow> string option"

text \<open>
  The state of the process: what it has logged and called so far, the module global
  \<^verbatim>\<open>watcher\<close> (\<open>None\<close> while the name is not in \<^verbatim>\<open>globals()\<close>) with the lifecycle
  state of the instance, whether a connection to the storage is open, and the store and
  ledger the pipeline writes. One flag serves the manager of \<^verbatim>\<open>initialize_database\<close>
  and the gateway of the watcher: the first is released before the watcher is created, so
  the two connections are never open together.
\<close>

record proc =
  trace :: "event list"
  watcher :: "wstate option"
  connected :: bool
  store :: "batch list"
  ledger :: "entry list"

definition emit :: "event \<Rightarrow> proc \<Rightarrow> proc" where
  "emit e p = p\<lparr>trace := trace p @ [e]\<rparr>"

section \<open>The storage connection\<close>

text \<open>
  Modelled from the spec: \<^verbatim>\<open>connect()\<close> of the Storage Gateway (section 4.1;
  \<^verbatim>\<open>database.py\<close> is absent from the sources) establishes a connection, and calling it
  while connected is a no-op. This is the effect of a call that returns true.
\<close>

definition connect :: "proc \<Rightarrow> proc" where
  "connect s = s\<lparr>connected := True\<rparr>"

text \<open>
  Modelled from the spec: \<^verbatim>\<open>disconnect()\<close> of the Storage Gateway (section 4.1;
  \<^verbatim>\<open>database.py\<close> is absent from the sources) releases the connection and is always
  safe to call. This is the effect of a call that returns.
\<close>

definition disconnect :: "proc \<Rightarrow> proc" where
  "disconnect s = s\<lparr>connected := False\<rparr>"

section \<open>The ingestion pipeline\<close>

text \<open>
  \<^verbatim>\<open>folder_watcher.py\<close> and \<^verbatim>\<open>database.py\<close> are not among the sources. What
  \<^verbatim>\<open>main.py\<close> needs of them is the outcome of each call, which the environment gives.
  What happens to the files inside \<^verbatim>\<open>process_existing_files\<close> and under the listener is
  taken from sections 4.1, 4.3 and 4.4 of the specification; each definition of this
  section says so. The ledger is the list of recorded outcomes, keyed by path and
  fingerprint; the store is the list of committed batches, one per ingested file.
\<close>

text \<open>
  Modelled from the spec: \<^verbatim>\<open>shouldProcess(path, fingerprint)\<close> of the Ingestion Tracker
  (section 4.3, absent from the sources) is true if no ledger entry exists for this exact
  path and fingerprint with outcome processed.
\<close>

definition should_process :: "entry list \<Rightarrow> string \<Rightarrow> string \<Rightarrow> bool" where
  "should_process l p h = ((p, h, Processed) \<notin> set l)"

text \<open>
  Modelled from the spec: \<^verbatim>\<open>markProcessed(path, fingerprint)\<close> of the Ingestion Tracker
  (section 4.3, absent from the sources) records the outcome in the ledger.
\<close>

definition mark_processed :: "string \<Rightarrow> string \<Rightarrow> proc \<Rightarrow> proc" where
  "mark_processed p h s = s\<lparr>ledger := ledger s @ [(p, h, Processed)]\<rparr>"

text \<open>
  Modelled from the spec: \<^verbatim>\<open>markFailed(path, fingerprint, reason)\<close> of the Ingestion
  Tracker (section 4.3, absent from the sources) records the outcome in the ledger; the
  failure is logged with the file's identity and the reason (section 7).
\<close>

definition mark_failed :: "string \<Rightarrow> string \<Rightarrow> string \<Rightarrow> proc \<Rightarrow> proc" where
  "mark_failed p h reason s =
     (emit (Log ERROR (''Failed to process '' @ p @ '': '' @ reason)) s)
       \<lparr>ledger := ledger s @ [(p, h, Failed reason)]\<rparr>"

text \<open>
  Modelled from the spec: \<^verbatim>\<open>upsertRecords(records)\<close> of the Storage Gateway (section
  4.1, absent from the sources) writes a batch in one transaction, all of it or nothing,
  and fails with a \<^verbatim>\<open>PersistenceError\<close> otherwise. Whether the store accepts a batch is
  the environment's \<open>persist\<close>.
\<close>

definition upsert_records ::
    "env \<Rightarrow> string \<Rightarrow> string \<Rightarrow> string list \<Rightarrow> batch list \<Rightarrow> string + batch list" where
  "upsert_records env p h recs st =
     (case persist env st recs of
        Some reason \<Rightarrow> Inl reason
      | None \<Rightarrow> Inr (st @ [(p, h, recs)]))"

text \<open>
  Modelled from the spec: the per-file path of the Directory Watcher (section 4.4, absent
  from the sources), \<^verbatim>\<open>shouldProcess \<rightarrow> parse \<rightarrow> upsert \<rightarrow> markProcessed\<close>, else skip,
  with a parse or persistence failure caught, logged and marked failed. The parser and
  the fingerprint are the environment's: the specification leaves the format open. A batch
  is committed over the gateway's connection, which the gateway owns (section 5) and opens
  on demand, so after a commit the connection is open.
\<close>

definition process_file :: "env \<Rightarrow> phase \<Rightarrow> watched_file \<Rightarrow> proc \<Rightarrow> proc" where
  "process_file env ph f s0 =
     (let p = fpath f; h = fingerprint env (fbytes f); s = emit (Examine ph p) s0 in
      if \<not> should_process (ledger s) p h then s
      else
        (case parse env (fbytes f) of
           Inl reason \<Rightarrow> mark_failed p h reason s
         | Inr recs \<Rightarrow>
             (case upsert_records env p h recs (store s) of
                Inl reason \<Rightarrow> mark_failed p h reason s
              | Inr st \<Rightarrow> mark_processed p h (connect (s\<lparr>store := st\<rparr>)))))"

text \<open>
  Modelled from the spec: the sweep and the listener feed their files, one after the
  other, through the same per-file path (section 4.4, absent from the sources).
\<close>

fun handle_files :: "env \<Rightarrow> phase \<Rightarrow> watched_file list \<Rightarrow> proc \<Rightarrow> proc" where
  "handle_files env ph [] s = s"
| "handle_files env ph (f # fs) s = handle_files env ph fs (process_file env ph f s)"

text \<open>
  Modelled from the spec: \<^verbatim>\<open>processExistingFiles()\<close> (section 4.4, absent from the
  sources) moves the watcher from stopped to sweeping and handles every file of the
  listing before it returns.
\<close>

definition process_existing_files :: "env \<Rightarrow> proc \<Rightarrow> proc" where
  "process_existing_files env s =
     handle_files env Sweep (existing_files env) (s\<lparr>watcher := Some Sweeping\<rparr>)"

text \<open>
  Modelled from the spec: \<^verbatim>\<open>startWatching()\<close> (section 4.4, absent from the sources)
  moves the watcher to watching.
\<close>

definition start_watching :: "proc \<Rightarrow> proc" where
  "start_watching s = s\<lparr>watcher := Some Watching\<rparr>"

text \<open>
  Modelled from the spec: \<^verbatim>\<open>stopWatching()\<close> (section 4.4, absent from the sources)
  unsubscribes from the filesystem notifications and moves the watcher to stopped. The
  graceful shutdown of section 6 and of scenario 5 leaves the storage connection closed,
  and \<^verbatim>\<open>stop_watching\<close> is the only call \<^verbatim>\<open>main.py\<close> makes at shutdown, so releasing
  the gateway's connection is part of it.
\<close>

definition stop_watching :: "proc \<Rightarrow> proc" where
  "stop_watching s = disconnect (s\<lparr>watcher := Some Stopped\<rparr>)"

text \<open>
  Modelled from the spec: the background listener (sections 4.4 and 5, absent from the
  sources) handles the files reported during the \<open>i\<close>-th sleep of the main thread, and
  only while the watcher is watching.
\<close>

definition listener :: "env \<Rightarrow> nat \<Rightarrow> proc \<Rightarrow> proc" where
  "listener env i s =
     (if watcher s = Some Watching then handle_files env Live (fs_events env i) s else s)"

section \<open>The entry point\<close>

text \<open>
  \<^verbatim>\<open>signal_handler(signum, frame)\<close> logs, stops the watcher when the module global
  exists, and calls \<^verbatim>\<open>sys.exit(0)\<close>. It never returns: its result is the exception that
  leaves it, \<^verbatim>\<open>SystemExit(0)\<close> or whatever \<^verbatim>\<open>stop_watching\<close> raised.
\<close>

definition signal_handler :: "env \<Rightarrow> signum option \<Rightarrow> proc \<Rightarrow> exn \<times> proc" where
  "signal_handler env sig p0 =
     (let p1 = emit (Log INFO ''Shutdown signal received, stopping folder watcher...'') p0 in
      case watcher p1 of
        None \<Rightarrow> (SystemExit 0, p1)
      | Some w \<Rightarrow>
          (case stop_watching_out env of
             Some e \<Rightarrow> (e, emit (Call StopWatching) p1)
           | None \<Rightarrow> (SystemExit 0, stop_watching (emit (Call StopWatching) p1))))"

text \<open>
  A call that leaves \<^verbatim>\<open>main.py\<close>, made after the handlers are installed. A signal
  delivered during the call runs \<open>signal_handler\<close>, whose exception comes out of the call.
\<close>

definition invoke :: "env \<Rightarrow> call \<Rightarrow> 'a outcome \<Rightarrow> proc \<Rightarrow> (exn + 'a) \<times> proc" where
  "invoke env c out p =
     (let p1 = emit (Call c) p in
      case out of
        Returns v \<Rightarrow> (Inr v, p1)
      | Raises e \<Rightarrow> (Inl e, p1)
      | Signalled s \<Rightarrow>
          (case signal_handler env (Some s) (emit (Signal s) p1) of
             (e, p2) \<Rightarrow> (Inl e, p2)))"

text \<open>
  The body of the \<^verbatim>\<open>try\<close> of \<^verbatim>\<open>initialize_database\<close>. A \<^verbatim>\<open>connect\<close> that returns
  true has opened the connection.
\<close>

definition init_try_body :: "env \<Rightarrow> proc \<Rightarrow> (exn + bool) \<times> proc" where
  "init_try_body env p =
     (case invoke env Connect (connect_out env) p of
        (Inl e, p1) \<Rightarrow> (Inl e, p1)
      | (Inr ok, p1) \<Rightarrow>
          if \<not> ok then
            (Inr False, emit (Log ERROR ''Failed to connect to database for initialization'') p1)
          else
            (case invoke env CreateAllTables (create_all_tables_out env) (connect p1) of
               (Inl e, p2) \<Rightarrow> (Inl e, p2)
             | (Inr success, p2) \<Rightarrow>
                 (Inr success,
                  emit (if success
                        then Log INFO ''Database initialization completed successfully''
                        else Log ERROR ''Database initialization failed'') p2)))"

text \<open>
  The \<^verbatim>\<open>try\<close> statement of \<^verbatim>\<open>initialize_database\<close>: the \<^verbatim>\<open>except Exception\<close>
  clause turns an \<open>Exception\<close> into the result \<open>False\<close>; the \<^verbatim>\<open>finally\<close> clause runs
  on every path, and an exception of \<^verbatim>\<open>disconnect\<close> replaces the pending result. A
  \<^verbatim>\<open>disconnect\<close> that returns has released the connection.
\<close>

definition init_try_finally :: "env \<Rightarrow> proc \<Rightarrow> (exn + bool) \<times> proc" where
  "init_try_finally env p0 =
     (case init_try_body env p0 of
        (r, p1) \<Rightarrow>
          (case (case r of
                   Inl e \<Rightarrow>
                     (case e of
                        Exception c m \<Rightarrow>
                          (Inr False,
                           emit (Log ERROR (''Database initialization error: '' @ m)) p1)
                      | KeyboardInterrupt \<Rightarrow> (Inl e, p1)
                      | SystemExit n \<Rightarrow> (Inl e, p1))
                 | Inr b \<Rightarrow> (Inr b, p1)) of
             (r', p2) \<Rightarrow>
               (case invoke env Disconnect (disconnect_out env) p2 of
                  (Inl e, p3) \<Rightarrow> (Inl e, p3)
                | (Inr u, p3) \<Rightarrow> (r', disconnect p3))))"

text \<open>
  \<^verbatim>\<open>initialize_database\<close>: the manager is created before the \<^verbatim>\<open>try\<close>, so an
  exception of its constructor leaves the function at once.
\<close>

definition initialize_database :: "env \<Rightarrow> proc \<Rightarrow> (exn + bool) \<times> proc" where
  "initialize_database env p0 =
     (case invoke env NewDatabaseManager (new_manager_out env)
             (emit (Log INFO ''Initializing database tables...'') p0) of
        (Inl e, p1) \<Rightarrow> (Inl e, p1)
      | (Inr u, p1) \<Rightarrow> init_try_finally env p1)"

text \<open>
  \<^verbatim>\<open>while True: time.sleep(1)\<close>. The loop has no exit of its own: it ends when a sleep
  raises or is interrupted by a signal. \<open>None\<close> is the process still running after
  \<open>fuel\<close> sleeps.
\<close>

fun idle_loop :: "env \<Rightarrow> nat \<Rightarrow> nat \<Rightarrow> proc \<Rightarrow> exn option \<times> proc" where
  "idle_loop env 0 i p = (None, p)"
| "idle_loop env (Suc fuel) i p =
     (case invoke env Sleep (sleep_out env i) (listener env i p) of
        (Inl e, p1) \<Rightarrow> (Some e, p1)
      | (Inr u, p1) \<Rightarrow> idle_loop env fuel (Suc i) p1)"

text \<open>
  The \<^verbatim>\<open>try\<close> block of \<^verbatim>\<open>main\<close>. \<^verbatim>\<open>sys.exit(1)\<close> raises \<^verbatim>\<open>SystemExit(1)\<close> inside it.
  The block never completes normally: its result is the exception that leaves it, or
  \<open>None\<close> when the fuel of the idle loop is used up.
\<close>

definition try_block :: "env \<Rightarrow> nat \<Rightarrow> proc \<Rightarrow> exn option \<times> proc" where
  "try_block env fuel p0 =
     (case initialize_database env p0 of
        (Inl e, p1) \<Rightarrow> (Some e, p1)
      | (Inr ok, p1) \<Rightarrow>
          if \<not> ok then
            (Some (SystemExit 1),
             emit (Log ERROR ''Database initialization failed. Exiting...'') p1)
          else
            (case invoke env NewFolderWatcher (new_watcher_out env) p1 of
               (Inl e, p2) \<Rightarrow> (Some e, p2)
             | (Inr u2, p2) \<Rightarrow>
                 (case invoke env SetupFolders (setup_folders_out env)
                         (p2\<lparr>watcher := Some Stopped\<rparr>) of
                    (Inl e, p3) \<Rightarrow> (Some e, p3)
                  | (Inr u3, p3) \<Rightarrow>
                      (case invoke env ProcessExistingFiles
                              (process_existing_files_out env) p3 of
                         (Inl e, p4) \<Rightarrow> (Some e, p4)
                       | (Inr u4, p4) \<Rightarrow>
                           (case invoke env StartWatching (start_watching_out env)
                                   (process_existing_files env p4) of
                              (Inl e, p5) \<Rightarrow> (Some e, p5)
                            | (Inr u5, p5) \<Rightarrow>
                                idle_loop env fuel 0
                                  (emit (Log INFO
                                     ''Folder watcher is running. Press Ctrl+C to stop.'')
                                     (start_watching p5)))))))"

text \<open>
  The two \<^verbatim>\<open>except\<close> clauses of \<^verbatim>\<open>main\<close>, applied to what left the \<^verbatim>\<open>try\<close>
  block: \<^verbatim>\<open>except KeyboardInterrupt\<close> logs and calls \<^verbatim>\<open>signal_handler(None, None)\<close>,
  \<^verbatim>\<open>except Exception\<close> logs and calls \<^verbatim>\<open>sys.exit(1)\<close>, and \<^verbatim>\<open>SystemExit\<close> passes
  both clauses. An exception raised inside a clause leaves \<^verbatim>\<open>main\<close>.
\<close>

definition except_clauses :: "env \<Rightarrow> exn option \<times> proc \<Rightarrow> exn option \<times> proc" where
  "except_clauses env rp =
     (case rp of
        (None, p1) \<Rightarrow> (None, p1)
      | (Some e, p1) \<Rightarrow>
          (case e of
             KeyboardInterrupt \<Rightarrow>
               (case signal_handler env None
                       (emit (Log INFO ''Keyboard interrupt received'') p1) of
                  (e', p2) \<Rightarrow> (Some e', p2))
           | Exception c m \<Rightarrow>
               (Some (SystemExit 1), emit (Log ERROR (''Unexpected error: '' @ m)) p1)
           | SystemExit n \<Rightarrow> (Some e, p1)))"

text \<open>
  \<^verbatim>\<open>main\<close>: logging is set up and the handlers are installed before the \<^verbatim>\<open>try\<close>, so
  an exception of \<^verbatim>\<open>setup_logging\<close> leaves \<^verbatim>\<open>main\<close> uncaught.
\<close>

definition main :: "env \<Rightarrow> nat \<Rightarrow> proc \<Rightarrow> exn option \<times> proc" where
  "main env fuel p0 =
     (case setup_logging_out env of
        Some e \<Rightarrow> (Some e, p0)
      | None \<Rightarrow>
          except_clauses env
            (try_block env fuel
               (emit (Log INFO ''Starting Employee Management System - Folder Watcher'') p0)))"

text \<open>
  How the interpreter ends when an exception leaves \<^verbatim>\<open>main()\<close>: \<^verbatim>\<open>SystemExit(n)\<close> is
  exit status \<open>n\<close>; anything else is a traceback and a non-zero status.
\<close>

datatype ending = Exited int | Traceback exn

fun ending_of :: "exn \<Rightarrow> ending" where
  "ending_of (SystemExit n) = Exited n"
| "ending_of e = Traceback e"

definition run :: "env \<Rightarrow> nat \<Rightarrow> proc \<Rightarrow> ending option \<times> proc" where
  "run env fuel p0 = (case main env fuel p0 of (r, p) \<Rightarrow> (map_option ending_of r, p))"

definition fresh :: proc where
  "fresh = \<lparr>trace = [], watcher = None, connected = False, store = [], ledger = []\<rparr>"

section \<open>Observations on a run\<close>

text \<open>
  The calls, the files examined in one phase, the errors logged and the signals
  delivered, read off a trace; \<open>after_signal\<close> is what follows the first signal.
\<close>

fun calls_of :: "event list \<Rightarrow> call list" where
  "calls_of [] = []"
| "calls_of (Call c # es) = c # calls_of es"
| "calls_of (e # es) = calls_of es"

fun examined :: "phase \<Rightarrow> event list \<Rightarrow> string list" where
  "examined ph [] = []"
| "examined ph (Examine ph' p # es) =
     (if ph' = ph then p # examined ph es else examined ph es)"
| "examined ph (e # es) = examined ph es"

fun errors_logged :: "event list \<Rightarrow> string list" where
  "errors_logged [] = []"
| "errors_logged (Log ERROR m # es) = m # errors_logged es"
| "errors_logged (e # es) = errors_logged es"

fun signals_of :: "event list \<Rightarrow> signum list" where
  "signals_of [] = []"
| "signals_of (Signal s # es) = s # signals_of es"
| "signals_of (e # es) = signals_of es"

fun after_signal :: "event list \<Rightarrow> event list" where
  "after_signal [] = []"
| "after_signal (Signal s # es) = es"
| "after_signal (e # es) = after_signal es"

text \<open>
  The events a step adds: the trace only grows, so they are the part of the later trace
  beyond the earlier one.
\<close>

definition new_events :: "proc \<Rightarrow> proc \<Rightarrow> event list" where
  "new_events p p' = drop (length (trace p)) (trace p')"

definition extends :: "proc \<Rightarrow> proc \<Rightarrow> bool" where
  "extends p p' = (trace p' = trace p @ new_events p p')"

text \<open>The calls made on the \<^verbatim>\<open>DatabaseManager\<close>, in order.\<close>

definition db_calls :: "proc \<Rightarrow> call list" where
  "db_calls p =
     filter (\<lambda>c. c = Connect \<or> c = CreateAllTables \<or> c = Disconnect) (calls_of (trace p))"

text \<open>
  An outcome is ordinary when no interrupt is involved: the call returns, or it raises an
  instance of \<^verbatim>\<open>Exception\<close>. The connection fails when, the manager created,
  \<^verbatim>\<open>connect\<close> ordinarily does anything but return true; the schema fails when, the
  connection made, \<^verbatim>\<open>create_all_tables\<close> ordinarily does anything but return true.
\<close>

fun ordinary :: "'a outcome \<Rightarrow> bool" where
  "ordinary (Returns v) = True"
| "ordinary (Raises (Exception c m)) = True"
| "ordinary (Raises e) = False"
| "ordinary (Signalled s) = False"

definition connect_fails :: "env \<Rightarrow> bool" where
  "connect_fails env =
     (new_manager_out env = Returns () \<and>
      ordinary (connect_out env) \<and> connect_out env \<noteq> Returns True)"

definition schema_fails :: "env \<Rightarrow> bool" where
  "schema_fails env =
     (new_manager_out env = Returns () \<and>
      connect_out env = Returns True \<and>
      ordinary (create_all_tables_out env) \<and> create_all_tables_out env \<noteq> Returns True)"

text \<open>
  A start-up succeeds when every call up to \<^verbatim>\<open>start_watching\<close> returns, the database
  calls with true. The first \<open>k\<close> sleeps from the \<open>i\<close>-th on are quiet when each returns.
\<close>

definition startup_ok :: "env \<Rightarrow> bool" where
  "startup_ok env =
     (setup_logging_out env = None \<and>
      new_manager_out env = Returns () \<and>
      connect_out env = Returns True \<and>
      create_all_tables_out env = Returns True \<and>
      disconnect_out env = Returns () \<and>
      new_watcher_out env = Returns () \<and>
      setup_folders_out env = Returns () \<and>
      process_existing_files_out env = Returns () \<and>
      start_watching_out env = Returns ())"

definition quiet :: "env \<Rightarrow> nat \<Rightarrow> nat \<Rightarrow> bool" where
  "quiet env i k = list_all (\<lambda>j. sleep_out env j = Returns ()) [i..<i + k]"

text \<open>
  The states a successful start-up passes through: when \<^verbatim>\<open>process_existing_files\<close> is
  called, when it has returned, and when the idle loop is entered.
\<close>

definition prepared_state :: "proc \<Rightarrow> proc" where
  "prepared_state p =
     emit (Call ProcessExistingFiles)
       (emit (Call SetupFolders)
         ((emit (Call NewFolderWatcher)
            (disconnect
              (emit (Call Disconnect)
                (emit (Log INFO ''Database initialization completed successfully'')
                  (emit (Call CreateAllTables)
                    (connect
                      (emit (Call Connect)
                        (emit (Call NewDatabaseManager)
                          (emit (Log INFO ''Initializing database tables...'')
                            (emit (Log INFO
                               ''Starting Employee Management System - Folder Watcher'')
                               p))))))))))
          \<lparr>watcher := Some Stopped\<rparr>))"

definition swept_state :: "env \<Rightarrow> proc \<Rightarrow> proc" where
  "swept_state env p = process_existing_files env (prepared_state p)"

definition watching_state :: "env \<Rightarrow> proc \<Rightarrow> proc" where
  "watching_state env p =
     emit (Log INFO ''Folder watcher is running. Press Ctrl+C to stop.'')
       (start_watching (emit (Call StartWatching) (swept_state env p)))"






text \<open>
  The states of a run whose sleeps all return: \<open>sleeps env i n q\<close> is the state after \<open>n\<close>
  quiet sleeps from the \<open>i\<close>-th on, started in \<open>q\<close>, the listener handling the files
  reported during each; \<open>sleeping_state env n p\<close> is the state of a successful start-up after
  its first \<open>n\<close> sleeps, and \<open>reported env n\<close> the files reported during them.
  \<open>sweep_start p\<close> is the state in which the sweep begins.
\<close>

fun sleeps :: "env \<Rightarrow> nat \<Rightarrow> nat \<Rightarrow> proc \<Rightarrow> proc" where
  "sleeps env i 0 q = q"
| "sleeps env i (Suc n) q = sleeps env (Suc i) n (emit (Call Sleep) (listener env i q))"

definition sleeping_state :: "env \<Rightarrow> nat \<Rightarrow> proc \<Rightarrow> proc" where
  "sleeping_state env n p = sleeps env 0 n (watching_state env p)"




definition grows :: "proc \<Rightarrow> proc \<Rightarrow> bool" where
  "grows s t = (extends s t \<and> set (ledger s) \<subseteq> set (ledger t))"

section \<open>Concrete environments and files\<close>

text \<open>
  A start-up that succeeds, with two files to sweep, the second one empty and rejected by
  the parser, a third file reported during the second sleep, and \<^verbatim>\<open>SIGTERM\<close> delivered
  during the third sleep; and its variants: the connection refused, the folders not
  creatable, a \<^verbatim>\<open>KeyboardInterrupt\<close> raised in the idle wait.
\<close>

definition sample_env :: env where
  "sample_env =
     \<lparr>setup_logging_out = None,
      new_manager_out = Returns (),
      connect_out = Returns True,
      create_all_tables_out = Returns True,
      disconnect_out = Returns (),
      new_watcher_out = Returns (),
      setup_folders_out = Returns (),
      process_existing_files_out = Returns (),
      start_watching_out = Returns (),
      stop_watching_out = None,
      sleep_out = (\<lambda>i. if i = 2 then Signalled SIGTERM else Returns ()),
      existing_files =
        [\<lparr>fpath = ''a.csv'', fbytes = ''1,ann''\<rparr>, \<lparr>fpath = ''b.csv'', fbytes = []\<rparr>],
      fs_events = (\<lambda>i. if i = 1 then [\<lparr>fpath = ''c.csv'', fbytes = ''2,bob''\<rparr>] else []),
      fingerprint = (\<lambda>b. b),
      parse = (\<lambda>b. if b = [] then Inl ''empty file'' else Inr [b]),
      persist = (\<lambda>st recs. None)\<rparr>"

definition refused_env :: env where
  "refused_env = sample_env\<lparr>connect_out := Raises (Exception ''ConnectionError'' ''refused'')\<rparr>"

definition denied_env :: env where
  "denied_env =
     sample_env\<lparr>setup_folders_out := Raises (Exception ''IOError'' ''Permission denied'')\<rparr>"

definition interrupted_env :: env where
  "interrupted_env = sample_env\<lparr>sleep_out := (\<lambda>i. Raises KeyboardInterrupt)\<rparr>"





definition sysexit_env :: env where
  "sysexit_env = sample_env\<lparr>setup_folders_out := Raises (SystemExit 3)\<rparr>"

definition interrupted_stop_raises_env :: env where
  "interrupted_stop_raises_env =
     interrupted_env\<lparr>stop_watching_out := Some (Exception ''RuntimeError'' ''observer failed'')\<rparr>"




section \<open>Basic facts\<close>

lemma calls_of_append [simp]: "calls_of (xs @ ys) = calls_of xs @ calls_of ys"
  by (induction xs rule: calls_of.induct) simp_all

lemma examined_append [simp]: "examined ph (xs @ ys) = examined ph xs @ examined ph ys"
  by (induction ph xs rule: examined.induct) simp_all

lemma errors_logged_append [simp]:
  "errors_logged (xs @ ys) = errors_logged xs @ errors_logged ys"
  by (induction xs rule: errors_logged.induct) simp_all

lemma trace_emit [simp]: "trace (emit e p) = trace p @ [e]"
  and watcher_emit [simp]: "watcher (emit e p) = watcher p"
  and connected_emit [simp]: "connected (emit e p) = connected p"
  and store_emit [simp]: "store (emit e p) = store p"
  and ledger_emit [simp]: "ledger (emit e p) = ledger p"
  by (simp_all add: emit_def)

lemma trace_connect [simp]: "trace (connect p) = trace p"
  and watcher_connect [simp]: "watcher (connect p) = watcher p"
  and connected_connect [simp]: "connected (connect p) = True"
  and store_connect [simp]: "store (connect p) = store p"
  and ledger_connect [simp]: "ledger (connect p) = ledger p"
  by (simp_all add: connect_def)

lemma trace_disconnect [simp]: "trace (disconnect p) = trace p"
  and watcher_disconnect [simp]: "watcher (disconnect p) = watcher p"
  and connected_disconnect [simp]: "connected (disconnect p) = False"
  and store_disconnect [simp]: "store (disconnect p) = store p"
  and ledger_disconnect [simp]: "ledger (disconnect p) = ledger p"
  by (simp_all add: disconnect_def)

lemma invoke_Returns [simp]: "invoke env c (Returns v) p = (Inr v, emit (Call c) p)"
  and invoke_Raises [simp]: "invoke env c (Raises e) p = (Inl e, emit (Call c) p)"
  by (simp_all add: invoke_def)


lemma snd_invoke_Signalled:
  "snd (invoke env c (Signalled s) p) =
     snd (signal_handler env (Some s) (emit (Signal s) (emit (Call c) p)))"
  by (simp add: invoke_def Let_def split: prod.splits)

lemma ordinary_cases:
  "ordinary out \<Longrightarrow> (\<exists>v. out = Returns v) \<or> (\<exists>c m. out = Raises (Exception c m))"
  by (cases out rule: ordinary.cases) simp_all

section \<open>The database calls of initialisation\<close>

lemma db_calls_emit_Log [simp]: "db_calls (emit (Log l m) p) = db_calls p"
  and db_calls_emit_Signal [simp]: "db_calls (emit (Signal s) p) = db_calls p"
  and db_calls_emit_Call [simp]: "db_calls (emit (Call c) p) =
     db_calls p @ (if c = Connect \<or> c = CreateAllTables \<or> c = Disconnect then [c] else [])"
  by (simp_all add: db_calls_def)

lemma db_calls_connect [simp]: "db_calls (connect p) = db_calls p"
  and db_calls_disconnect [simp]: "db_calls (disconnect p) = db_calls p"
  by (simp_all add: db_calls_def)






section \<open>The signal handler before a watcher exists\<close>

text \<open>
  C9. \<^verbatim>\<open>signal_handler\<close> may run before any watcher exists: while the name
  \<^verbatim>\<open>watcher\<close> is not among the module globals it logs, makes no call to
  \<^verbatim>\<open>stop_watching\<close>, and leaves through \<^verbatim>\<open>sys.exit(0)\<close>, so the process ends with
  status 0 and no error is raised.
\<close>

theorem signal_handler_without_watcher:
  "watcher p = None \<Longrightarrow>
     signal_handler env sig p =
       (SystemExit 0, emit (Log INFO ''Shutdown signal received, stopping folder watcher...'') p)
     \<and> ending_of (fst (signal_handler env sig p)) = Exited 0
     \<and> StopWatching \<notin> set (calls_of (new_events p (snd (signal_handler env sig p))))"
  by (simp add: signal_handler_def new_events_def)

theorem signal_handler_without_watcher_witness:
  "watcher fresh = None \<and>
   signal_handler sample_env (Some SIGINT) fresh =
     (SystemExit 0, emit (Log INFO ''Shutdown signal received, stopping folder watcher...'') fresh)
   \<and> ending_of (fst (signal_handler sample_env (Some SIGINT) fresh)) = Exited 0
   \<and> StopWatching \<notin>
       set (calls_of (new_events fresh (snd (signal_handler sample_env (Some SIGINT) fresh))))"
proof -
  have h: "watcher fresh = None"
    by (simp add: fresh_def)
  show ?thesis
    by (rule conjI [OF h signal_handler_without_watcher [OF h, of sample_env "Some SIGINT"]])
qed

section \<open>Failure of the database initialisation\<close>

text \<open>
  C1. When the database initialisation of start-up fails, the process logs an error and
  exits with status 1 without creating the watcher. Failing means: \<^verbatim>\<open>connect\<close> returns
  false or raises an \<^verbatim>\<open>Exception\<close>, or, the connection made, \<^verbatim>\<open>create_all_tables\<close>
  returns false or raises an \<^verbatim>\<open>Exception\<close>. The \<^verbatim>\<open>disconnect\<close> of the \<^verbatim>\<open>finally\<close>
  clause may itself return or raise an \<^verbatim>\<open>Exception\<close>. The only calls of the run are
  the database calls: no watcher is created, no folder set up, nothing swept or watched.
\<close>

theorem database_failure_aborts_startup:
  assumes "setup_logging_out env = None"
    and "connect_fails env \<or> schema_fails env"
    and "ordinary (disconnect_out env)"
  shows "fst (run env fuel p) = Some (Exited 1) \<and>
         errors_logged (new_events p (snd (run env fuel p))) \<noteq> [] \<and>
         (calls_of (new_events p (snd (run env fuel p))) = [NewDatabaseManager, Connect, Disconnect] \<or>
          calls_of (new_events p (snd (run env fuel p))) =
            [NewDatabaseManager, Connect, CreateAllTables, Disconnect])"
proof -
  from assms(2) have mg: "new_manager_out env = Returns ()"
    by (auto simp: connect_fails_def schema_fails_def)
  from assms(2) consider
      (a) "connect_out env = Returns False"
    | (b) c m where "connect_out env = Raises (Exception c m)"
    | (c) "connect_out env = Returns True" "create_all_tables_out env = Returns False"
    | (d) c m where "connect_out env = Returns True"
        "create_all_tables_out env = Raises (Exception c m)"
    by (auto simp: connect_fails_def schema_fails_def dest!: ordinary_cases)
  note init = this
  from assms(3) consider (ret) "disconnect_out env = Returns ()"
    | (exc) c m where "disconnect_out env = Raises (Exception c m)"
    by (auto dest: ordinary_cases)
  then show ?thesis
  proof cases
    case ret
    from init show ?thesis
      using assms(1) ret mg
      by cases (simp_all add: run_def main_def except_clauses_def try_block_def
            initialize_database_def init_try_finally_def init_try_body_def new_events_def)
  next
    case exc
    from init show ?thesis
      using assms(1) exc mg
      by cases (simp_all add: run_def main_def except_clauses_def try_block_def
            initialize_database_def init_try_finally_def init_try_body_def new_events_def)
  qed
qed

theorem database_failure_aborts_startup_witness:
  "setup_logging_out refused_env = None \<and>
   (connect_fails refused_env \<or> schema_fails refused_env) \<and>
   ordinary (disconnect_out refused_env) \<and>
   fst (run refused_env 3 fresh) = Some (Exited 1) \<and>
   errors_logged (new_events fresh (snd (run refused_env 3 fresh))) \<noteq> [] \<and>
   (calls_of (new_events fresh (snd (run refused_env 3 fresh))) = [NewDatabaseManager, Connect, Disconnect] \<or>
    calls_of (new_events fresh (snd (run refused_env 3 fresh))) =
      [NewDatabaseManager, Connect, CreateAllTables, Disconnect])"
proof -
  have h1: "setup_logging_out refused_env = None"
    by (simp add: refused_env_def sample_env_def)
  have h2: "connect_fails refused_env \<or> schema_fails refused_env"
    by (simp add: refused_env_def sample_env_def connect_fails_def)
  have h3: "ordinary (disconnect_out refused_env)"
    by (simp add: refused_env_def sample_env_def)
  show ?thesis
    using database_failure_aborts_startup [OF h1 h2 h3, of 3 fresh] h1 h2 h3
    by simp
qed

section \<open>Traces only grow: the events each step adds\<close>

lemma signals_of_append [simp]: "signals_of (xs @ ys) = signals_of xs @ signals_of ys"
  by (induction xs rule: signals_of.induct) simp_all

lemma after_signal_append:
  "signals_of xs = [] \<Longrightarrow> after_signal (xs @ Signal s # ys) = ys"
  by (induction xs rule: signals_of.induct) simp_all

lemma extendsI: "trace p' = trace p @ evs \<Longrightarrow> extends p p'"
  by (simp add: extends_def new_events_def)

lemma new_eventsI: "trace p' = trace p @ evs \<Longrightarrow> new_events p p' = evs"
  by (simp add: new_events_def)

lemma extends_refl [simp]: "extends p p" and new_events_refl [simp]: "new_events p p = []"
  by (simp_all add: extends_def new_events_def)

lemma extends_trans:
  assumes "extends p q" and "extends q r"
  shows "extends p r" and "new_events p r = new_events p q @ new_events q r"
proof -
  from assms have "trace r = trace p @ (new_events p q @ new_events q r)"
    by (simp add: extends_def)
  then show "extends p r" and "new_events p r = new_events p q @ new_events q r"
    by (auto intro: extendsI new_eventsI)
qed

lemma extends_emit [simp]: "extends p (emit e p)"
  and new_events_emit [simp]: "new_events p (emit e p) = [e]"
  by (simp_all add: extends_def new_events_def)

lemma extends_emit_after: "extends p q \<Longrightarrow> extends p (emit e q)"
  and new_events_emit_after: "extends p q \<Longrightarrow> new_events p (emit e q) = new_events p q @ [e]"
  using extends_trans [of p q "emit e q"] by simp_all

lemma process_file_extends: "extends s (process_file env ph f s)"
  by (rule extendsI [where evs = "new_events s (process_file env ph f s)"])
     (simp add: process_file_def Let_def mark_failed_def mark_processed_def new_events_def
        split: sum.splits)

lemma process_file_new_events:
  "\<exists>evs. new_events s (process_file env ph f s) = Examine ph (fpath f) # evs \<and>
     calls_of evs = [] \<and> signals_of evs = [] \<and> examined Sweep evs = [] \<and> examined Live evs = []"
  by (simp add: process_file_def Let_def mark_failed_def mark_processed_def new_events_def
        split: sum.splits)

lemma process_file_watcher [simp]: "watcher (process_file env ph f s) = watcher s"
  by (simp add: process_file_def Let_def mark_failed_def mark_processed_def split: sum.splits)

lemma handle_files_watcher [simp]: "watcher (handle_files env ph fs s) = watcher s"
  by (induction fs arbitrary: s) simp_all

lemma handle_files_extends: "extends s (handle_files env ph fs s)"
proof (induction fs arbitrary: s)
  case Nil
  show ?case by simp
next
  case (Cons f fs)
  show ?case
    using extends_trans(1) [OF process_file_extends Cons.IH] by simp
qed

lemma handle_files_new_events:
  "calls_of (new_events s (handle_files env ph fs s)) = [] \<and>
   signals_of (new_events s (handle_files env ph fs s)) = [] \<and>
   examined ph' (new_events s (handle_files env ph fs s)) = (if ph' = ph then map fpath fs else [])"
proof (induction fs arbitrary: s)
  case Nil
  show ?case by simp
next
  case (Cons f fs)
  let ?s1 = "process_file env ph f s"
  have n: "new_events s (handle_files env ph (f # fs) s) =
        new_events s ?s1 @ new_events ?s1 (handle_files env ph fs ?s1)"
    using extends_trans(2) [OF process_file_extends handle_files_extends] by simp
  obtain evs where e: "new_events s ?s1 = Examine ph (fpath f) # evs"
      "calls_of evs = []" "signals_of evs = []" "examined Sweep evs = []" "examined Live evs = []"
    using process_file_new_events by blast
  have "examined q evs = []" for q using e by (cases q) simp_all
  with n e Cons.IH [of ?s1] show ?case by auto
qed

section \<open>A successful start-up reaches the idle loop\<close>

lemma main_startup_ok:
  "startup_ok env \<Longrightarrow>
     main env fuel p = except_clauses env (idle_loop env fuel 0 (watching_state env p))"
  by (simp add: startup_ok_def main_def try_block_def initialize_database_def
        init_try_finally_def init_try_body_def watching_state_def swept_state_def
        prepared_state_def)

lemma extends_watcher_update [simp]: "extends p (q\<lparr>watcher := w\<rparr>) = extends p q"
  and new_events_watcher_update [simp]: "new_events p (q\<lparr>watcher := w\<rparr>) = new_events p q"
  and extends_watcher_update_left [simp]: "extends (p\<lparr>watcher := w\<rparr>) q = extends p q"
  and new_events_watcher_update_left [simp]: "new_events (p\<lparr>watcher := w\<rparr>) q = new_events p q"
  by (simp_all add: extends_def new_events_def)

lemma prepared_state_trace:
  "trace (prepared_state p) = trace p @
     [Log INFO ''Starting Employee Management System - Folder Watcher'',
      Log INFO ''Initializing database tables...'',
      Call NewDatabaseManager, Call Connect, Call CreateAllTables,
      Log INFO ''Database initialization completed successfully'',
      Call Disconnect, Call NewFolderWatcher, Call SetupFolders, Call ProcessExistingFiles]"
  by (simp add: prepared_state_def)

lemma swept_state_extends: "extends (prepared_state p) (swept_state env p)"
  using handle_files_extends [of "(prepared_state p)\<lparr>watcher := Some Sweeping\<rparr>"]
  by (simp add: swept_state_def process_existing_files_def)

lemma swept_state_new_events:
  "calls_of (new_events (prepared_state p) (swept_state env p)) = [] \<and>
   signals_of (new_events (prepared_state p) (swept_state env p)) = [] \<and>
   examined Sweep (new_events (prepared_state p) (swept_state env p)) = map fpath (existing_files env) \<and>
   examined Live (new_events (prepared_state p) (swept_state env p)) = []"
  using handle_files_new_events [of "(prepared_state p)\<lparr>watcher := Some Sweeping\<rparr>" env Sweep
          "existing_files env" Sweep]
        handle_files_new_events [of "(prepared_state p)\<lparr>watcher := Some Sweeping\<rparr>" env Sweep
          "existing_files env" Live]
  by (simp add: swept_state_def process_existing_files_def)

lemma watching_state_trace:
  "trace (watching_state env p) =
     trace (swept_state env p) @
       [Call StartWatching, Log INFO ''Folder watcher is running. Press Ctrl+C to stop.'']"
  and watching_state_watcher: "watcher (watching_state env p) = Some Watching"
  by (simp_all add: watching_state_def start_watching_def)

lemma signal_handler_extends: "extends p (snd (signal_handler env sig p))"
  by (rule extendsI [where evs = "new_events p (snd (signal_handler env sig p))"])
     (simp add: signal_handler_def Let_def stop_watching_def new_events_def split: option.splits)

lemma signal_handler_new_events:
  "new_events p (snd (signal_handler env sig p)) =
     Log INFO ''Shutdown signal received, stopping folder watcher...'' #
       (if watcher p = None then [] else [Call StopWatching])"
  by (simp add: signal_handler_def Let_def stop_watching_def new_events_def split: option.splits)

lemma invoke_extends: "extends p (snd (invoke env c out p))"
proof (cases out)
  case (Signalled s)
  have "extends p (emit (Signal s) (emit (Call c) p))"
    by (simp add: extends_emit_after)
  from extends_trans(1) [OF this signal_handler_extends]
  show ?thesis using Signalled by (simp only: snd_invoke_Signalled)
qed simp_all

lemma invoke_new_events:
  "new_events p (snd (invoke env c out p)) =
     Call c #
       (case out of
          Signalled s \<Rightarrow>
            [Signal s, Log INFO ''Shutdown signal received, stopping folder watcher...''] @
              (if watcher p = None then [] else [Call StopWatching])
        | _ \<Rightarrow> [])"
proof (cases out)
  case (Signalled s)
  have e: "extends p (emit (Signal s) (emit (Call c) p))"
    and n: "new_events p (emit (Signal s) (emit (Call c) p)) = [Call c, Signal s]"
    by (simp_all add: extends_emit_after new_events_emit_after)
  from extends_trans(2) [OF e signal_handler_extends] n
  show ?thesis using Signalled
    by (simp add: snd_invoke_Signalled signal_handler_new_events)
qed simp_all

lemma listener_extends: "extends s (listener env i s)"
  by (simp add: listener_def handle_files_extends)

lemma listener_new_events:
  "calls_of (new_events s (listener env i s)) = [] \<and>
   signals_of (new_events s (listener env i s)) = [] \<and>
   examined Sweep (new_events s (listener env i s)) = []"
  using handle_files_new_events [of s env Live "fs_events env i" Sweep]
  by (simp add: listener_def)

lemma listener_watcher [simp]: "watcher (listener env i s) = watcher s"
  by (simp add: listener_def)

lemma idle_loop_extends: "extends p (snd (idle_loop env fuel i p))"
proof (induction fuel arbitrary: i p)
  case 0
  show ?case by simp
next
  case (Suc fuel)
  let ?q = "listener env i p"
  obtain r p1 where inv: "invoke env Sleep (sleep_out env i) ?q = (r, p1)"
    by (cases "invoke env Sleep (sleep_out env i) ?q")
  have e1: "extends p p1"
    using extends_trans(1) [OF listener_extends invoke_extends [of ?q env Sleep "sleep_out env i"]]
      inv by simp
  show ?case
  proof (cases r)
    case (Inl e)
    with inv e1 show ?thesis by simp
  next
    case (Inr u)
    with inv extends_trans(1) [OF e1 Suc.IH [of p1 "Suc i"]] show ?thesis by simp
  qed
qed

section \<open>The idle loop\<close>


lemma quiet_0 [simp]: "quiet env i 0"
  by (simp add: quiet_def)

lemma quiet_Suc: "quiet env i (Suc k) = (sleep_out env i = Returns () \<and> quiet env (Suc i) k)"
  by (simp add: quiet_def upt_conv_Cons del: upt_Suc)

lemma idle_loop_step_new_events:
  assumes "invoke env Sleep (sleep_out env i) (listener env i p) = (r, p1)"
  shows "extends p p1"
    and "new_events p p1 =
           new_events p (listener env i p) @
           new_events (listener env i p) (snd (invoke env Sleep (sleep_out env i) (listener env i p)))"
  using extends_trans [OF listener_extends invoke_extends [of "listener env i p" env Sleep "sleep_out env i"]]
    assms by simp_all

lemma idle_loop_calls:
  "set (calls_of (new_events p (snd (idle_loop env fuel i p)))) \<subseteq> {Sleep, StopWatching} \<and>
   examined Sweep (new_events p (snd (idle_loop env fuel i p))) = []"
proof (induction fuel arbitrary: i p)
  case 0
  show ?case by simp
next
  case (Suc fuel)
  let ?q = "listener env i p"
  obtain r p1 where inv: "invoke env Sleep (sleep_out env i) ?q = (r, p1)"
    by (cases "invoke env Sleep (sleep_out env i) ?q")
  note st = idle_loop_step_new_events [OF inv]
  have n1: "set (calls_of (new_events p p1)) \<subseteq> {Sleep, StopWatching} \<and>
        examined Sweep (new_events p p1) = []"
    using st(2) listener_new_events [of p env i] invoke_new_events [of ?q env Sleep "sleep_out env i"]
    by (auto split: outcome.splits if_splits)
  show ?case
  proof (cases r)
    case (Inl e)
    with inv n1 show ?thesis by simp
  next
    case (Inr u)
    have "new_events p (snd (idle_loop env fuel (Suc i) p1)) =
          new_events p p1 @ new_events p1 (snd (idle_loop env fuel (Suc i) p1))"
      using extends_trans(2) [OF st(1) idle_loop_extends] .
    with inv Inr n1 Suc.IH [of p1 "Suc i"] show ?thesis by simp
  qed
qed

lemma idle_loop_None: "(fst (idle_loop env fuel i p) = None) = quiet env i fuel"
proof (induction fuel arbitrary: i p)
  case 0
  show ?case by simp
next
  case (Suc fuel)
  show ?case
  proof (cases "sleep_out env i")
    case (Returns u)
    then show ?thesis using Suc.IH by (simp add: quiet_Suc)
  next
    case (Raises e)
    then show ?thesis by (simp add: quiet_Suc)
  next
    case (Signalled s)
    then show ?thesis by (simp add: quiet_Suc invoke_def Let_def split: prod.splits)
  qed
qed

lemma idle_loop_quiet_calls:
  "quiet env i fuel \<Longrightarrow>
     calls_of (new_events p (snd (idle_loop env fuel i p))) = replicate fuel Sleep"
proof (induction fuel arbitrary: i p)
  case 0
  show ?case by simp
next
  case (Suc fuel)
  let ?q = "listener env i p"
  from Suc.prems have r: "sleep_out env i = Returns ()" and q: "quiet env (Suc i) fuel"
    by (simp_all add: quiet_Suc)
  have inv: "invoke env Sleep (sleep_out env i) ?q = (Inr (), emit (Call Sleep) ?q)"
    using r by simp
  note st = idle_loop_step_new_events [OF inv]
  have "new_events p (snd (idle_loop env fuel (Suc i) (emit (Call Sleep) ?q))) =
          new_events p (emit (Call Sleep) ?q) @
          new_events (emit (Call Sleep) ?q) (snd (idle_loop env fuel (Suc i) (emit (Call Sleep) ?q)))"
    using extends_trans(2) [OF st(1) idle_loop_extends] .
  then show ?case
    using r st(2) listener_new_events [of p env i] Suc.IH [OF q, of "emit (Call Sleep) ?q"]
    by (simp add: replicate_append_same)
qed




section \<open>The events of a whole run\<close>

lemma except_clauses_extends: "extends p1 (snd (except_clauses env (r, p1)))"
  using signal_handler_extends [of "emit (Log INFO ''Keyboard interrupt received'') p1" env None]
    extends_trans(1) [of p1 "emit (Log INFO ''Keyboard interrupt received'') p1"]
  by (auto simp: except_clauses_def split: option.splits exn.splits prod.splits)

lemma except_clauses_new_events:
  "set (calls_of (new_events p1 (snd (except_clauses env (r, p1))))) \<subseteq> {StopWatching} \<and>
   examined ph (new_events p1 (snd (except_clauses env (r, p1)))) = []"
proof -
  let ?q = "emit (Log INFO ''Keyboard interrupt received'') p1"
  have "new_events p1 (snd (signal_handler env None ?q)) =
      new_events p1 ?q @ new_events ?q (snd (signal_handler env None ?q))"
    using extends_trans(2) [OF _ signal_handler_extends, of p1 ?q] by simp
  then show ?thesis
    by (auto simp: except_clauses_def signal_handler_new_events
          split: option.splits exn.splits prod.splits if_splits)
qed

lemma except_clauses_None: "(fst (except_clauses env (r, p1)) = None) = (r = None)"
  by (auto simp: except_clauses_def split: option.splits exn.splits prod.splits)

lemma watching_state_extends: "extends p (watching_state env p)"
  and watching_state_new_events:
    "new_events p (watching_state env p) =
       [Log INFO ''Starting Employee Management System - Folder Watcher'',
        Log INFO ''Initializing database tables...'',
        Call NewDatabaseManager, Call Connect, Call CreateAllTables,
        Log INFO ''Database initialization completed successfully'',
        Call Disconnect, Call NewFolderWatcher] @
       [Call SetupFolders, Call ProcessExistingFiles] @
       new_events (prepared_state p) (swept_state env p) @
       Call StartWatching # [Log INFO ''Folder watcher is running. Press Ctrl+C to stop.'']"
proof -
  have a: "extends p (prepared_state p)"
    by (rule extendsI) (rule prepared_state_trace)
  have b: "extends (swept_state env p) (watching_state env p)"
    by (rule extendsI) (rule watching_state_trace)
  note ab = extends_trans [OF a swept_state_extends]
  from extends_trans(1) [OF ab(1) b] show "extends p (watching_state env p)" .
  from extends_trans(2) [OF ab(1) b] ab(2)
  show "new_events p (watching_state env p) =
       [Log INFO ''Starting Employee Management System - Folder Watcher'',
        Log INFO ''Initializing database tables...'',
        Call NewDatabaseManager, Call Connect, Call CreateAllTables,
        Log INFO ''Database initialization completed successfully'',
        Call Disconnect, Call NewFolderWatcher] @
       [Call SetupFolders, Call ProcessExistingFiles] @
       new_events (prepared_state p) (swept_state env p) @
       Call StartWatching # [Log INFO ''Folder watcher is running. Press Ctrl+C to stop.'']"
    by (simp add: new_eventsI [OF prepared_state_trace] new_eventsI [OF watching_state_trace])
qed

lemma main_new_events:
  assumes "startup_ok env"
  shows "new_events p (snd (main env fuel p)) =
           new_events p (watching_state env p) @
           new_events (watching_state env p) (snd (idle_loop env fuel 0 (watching_state env p))) @
           new_events (snd (idle_loop env fuel 0 (watching_state env p))) (snd (main env fuel p))"
    and "extends (snd (idle_loop env fuel 0 (watching_state env p))) (snd (main env fuel p))"
proof -
  let ?w = "watching_state env p"
  let ?i = "idle_loop env fuel 0 ?w"
  have m: "main env fuel p = except_clauses env (fst ?i, snd ?i)"
    using main_startup_ok [OF assms] by simp
  show e: "extends (snd ?i) (snd (main env fuel p))"
    unfolding m by (rule except_clauses_extends)
  note wi = extends_trans [OF watching_state_extends idle_loop_extends [of ?w env fuel 0]]
  from extends_trans(2) [OF wi(1) e] wi(2)
  show "new_events p (snd (main env fuel p)) =
           new_events p ?w @ new_events ?w (snd ?i) @ new_events (snd ?i) (snd (main env fuel p))"
    by simp
qed

lemma main_tail_events:
  assumes "startup_ok env"
  shows "set (calls_of (new_events (watching_state env p) (snd (idle_loop env fuel 0 (watching_state env p))) @
           new_events (snd (idle_loop env fuel 0 (watching_state env p))) (snd (main env fuel p))))
           \<subseteq> {Sleep, StopWatching}"
    and "examined Sweep (new_events (watching_state env p) (snd (idle_loop env fuel 0 (watching_state env p))) @
           new_events (snd (idle_loop env fuel 0 (watching_state env p))) (snd (main env fuel p))) = []"
proof -
  let ?w = "watching_state env p"
  let ?i = "idle_loop env fuel 0 ?w"
  have m: "main env fuel p = except_clauses env (fst ?i, snd ?i)"
    using main_startup_ok [OF assms] by simp
  show "set (calls_of (new_events ?w (snd ?i) @ new_events (snd ?i) (snd (main env fuel p))))
           \<subseteq> {Sleep, StopWatching}"
    using idle_loop_calls [of ?w env fuel 0] except_clauses_new_events [of "snd ?i" env "fst ?i" Sweep]
    unfolding m by auto
  show "examined Sweep (new_events ?w (snd ?i) @ new_events (snd ?i) (snd (main env fuel p))) = []"
    using idle_loop_calls [of ?w env fuel 0] except_clauses_new_events [of "snd ?i" env "fst ?i" Sweep]
    unfolding m by simp
qed

section \<open>The order of a successful start-up\<close>

text \<open>
  C2. On every successful start-up the steps occur in this order: the folders are set up,
  then the sweep of the existing files runs to completion, and only then does watching
  begin. The events of the run split at the calls: before \<^verbatim>\<open>setup_folders\<close> there are
  the database calls and the creation of the watcher and no file is examined; between
  \<^verbatim>\<open>process_existing_files\<close> and \<^verbatim>\<open>start_watching\<close> every existing file is examined by
  the sweep, in listing order, and none by the listener; after \<^verbatim>\<open>start_watching\<close> no file
  is examined by the sweep, so sweep ingestion and event-driven ingestion do not overlap.
\<close>

theorem startup_order:
  assumes "startup_ok env"
  shows "\<exists>a c d. new_events p (snd (main env fuel p)) =
            a @ [Call SetupFolders, Call ProcessExistingFiles] @ c @ Call StartWatching # d \<and>
          calls_of a = [NewDatabaseManager, Connect, CreateAllTables, Disconnect, NewFolderWatcher] \<and>
          examined Sweep a = [] \<and> examined Live a = [] \<and>
          calls_of c = [] \<and> examined Live c = [] \<and>
          examined Sweep c = map fpath (existing_files env) \<and>
          examined Sweep d = [] \<and> set (calls_of d) \<subseteq> {Sleep, StopWatching}"
proof -
  let ?w = "watching_state env p"
  let ?i = "idle_loop env fuel 0 ?w"
  let ?a = "[Log INFO ''Starting Employee Management System - Folder Watcher'',
        Log INFO ''Initializing database tables...'',
        Call NewDatabaseManager, Call Connect, Call CreateAllTables,
        Log INFO ''Database initialization completed successfully'',
        Call Disconnect, Call NewFolderWatcher]"
  let ?c = "new_events (prepared_state p) (swept_state env p)"
  let ?t = "new_events ?w (snd ?i) @ new_events (snd ?i) (snd (main env fuel p))"
  let ?d = "Log INFO ''Folder watcher is running. Press Ctrl+C to stop.'' # ?t"
  have 1: "new_events p (snd (main env fuel p)) =
      ?a @ [Call SetupFolders, Call ProcessExistingFiles] @ ?c @ Call StartWatching # ?d"
    using main_new_events(1) [OF assms, of p fuel] 
    by (simp only: watching_state_new_events append_assoc append_Cons append_Nil)
  have 2: "calls_of ?a = [NewDatabaseManager, Connect, CreateAllTables, Disconnect, NewFolderWatcher]"
     "examined Sweep ?a = []" "examined Live ?a = []"
    by simp_all
  have 3: "calls_of ?c = []" "examined Live ?c = []"
      "examined Sweep ?c = map fpath (existing_files env)"
    using swept_state_new_events [of p env] by simp_all
  have 4: "examined Sweep ?d = []" "set (calls_of ?d) \<subseteq> {Sleep, StopWatching}"
    using main_tail_events [OF assms, of p fuel] by simp_all
  from 1 2 3 4 show ?thesis by blast
qed

theorem startup_order_witness:
  "startup_ok sample_env \<and>
   (\<exists>a c d. new_events fresh (snd (main sample_env 5 fresh)) =
            a @ [Call SetupFolders, Call ProcessExistingFiles] @ c @ Call StartWatching # d \<and>
          calls_of a = [NewDatabaseManager, Connect, CreateAllTables, Disconnect, NewFolderWatcher] \<and>
          examined Sweep a = [] \<and> examined Live a = [] \<and>
          calls_of c = [] \<and> examined Live c = [] \<and>
          examined Sweep c = map fpath (existing_files sample_env) \<and>
          examined Sweep d = [] \<and> set (calls_of d) \<subseteq> {Sleep, StopWatching})"
proof -
  have h: "startup_ok sample_env"
    by (simp add: startup_ok_def sample_env_def)
  show ?thesis
    by (rule conjI [OF h startup_order [OF h, of fresh 5]])
qed

text \<open>
  C7. Once watching has started the main thread does no per-file work: after the call of
  \<^verbatim>\<open>start_watching\<close> its only calls are \<^verbatim>\<open>time.sleep\<close> and, at shutdown,
  \<^verbatim>\<open>stop_watching\<close>, and no file is examined by the sweep. The process is still running
  after \<open>fuel\<close> sleeps exactly when each of them returned, so only a signal or an
  exception ends it; and while it runs the calls are sleeps only.
\<close>

theorem idle_wait_only:
  assumes "startup_ok env"
  shows "\<exists>a d. new_events p (snd (main env fuel p)) = a @ Call StartWatching # d \<and>
          StartWatching \<notin> set (calls_of a) \<and>
          set (calls_of d) \<subseteq> {Sleep, StopWatching} \<and>
          examined Sweep d = [] \<and>
          (fst (main env fuel p) = None) = quiet env 0 fuel \<and>
          (quiet env 0 fuel \<longrightarrow> calls_of d = replicate fuel Sleep)"
proof -
  let ?w = "watching_state env p"
  let ?i = "idle_loop env fuel 0 ?w"
  let ?a = "[Log INFO ''Starting Employee Management System - Folder Watcher'',
        Log INFO ''Initializing database tables...'',
        Call NewDatabaseManager, Call Connect, Call CreateAllTables,
        Log INFO ''Database initialization completed successfully'',
        Call Disconnect, Call NewFolderWatcher] @ [Call SetupFolders, Call ProcessExistingFiles] @
        new_events (prepared_state p) (swept_state env p)"
  let ?t = "new_events ?w (snd ?i) @ new_events (snd ?i) (snd (main env fuel p))"
  let ?d = "Log INFO ''Folder watcher is running. Press Ctrl+C to stop.'' # ?t"
  have m: "main env fuel p = except_clauses env (fst ?i, snd ?i)"
    using main_startup_ok [OF assms] by simp
  have 1: "new_events p (snd (main env fuel p)) = ?a @ Call StartWatching # ?d"
    using main_new_events(1) [OF assms, of p fuel] 
    by (simp only: watching_state_new_events append_assoc append_Cons append_Nil)
  have 2: "StartWatching \<notin> set (calls_of ?a)"
    using swept_state_new_events [of p env] by simp
  have 3: "examined Sweep ?d = []" "set (calls_of ?d) \<subseteq> {Sleep, StopWatching}"
    using main_tail_events [OF assms, of p fuel] by simp_all
  have 4: "(fst (main env fuel p) = None) = quiet env 0 fuel"
    using except_clauses_None [of env "fst ?i" "snd ?i"] idle_loop_None [of env fuel 0 ?w] m
    by simp
  have 5: "quiet env 0 fuel \<longrightarrow> calls_of ?d = replicate fuel Sleep"
  proof
    assume q: "quiet env 0 fuel"
    then have "fst ?i = None" by (simp add: idle_loop_None)
    then have "snd (main env fuel p) = snd ?i"
      unfolding m by (simp add: except_clauses_def)
    then show "calls_of ?d = replicate fuel Sleep"
      using idle_loop_quiet_calls [OF q, of ?w] by simp
  qed
  show ?thesis
    by (rule exI [of _ ?a], rule exI [of _ ?d]) (intro conjI 1 2 3 4 5)
qed

theorem idle_wait_only_witness:
  "startup_ok sample_env \<and>
   (\<exists>a d. new_events fresh (snd (main sample_env 2 fresh)) = a @ Call StartWatching # d \<and>
          StartWatching \<notin> set (calls_of a) \<and>
          set (calls_of d) \<subseteq> {Sleep, StopWatching} \<and>
          examined Sweep d = [] \<and>
          (fst (main sample_env 2 fresh) = None) = quiet sample_env 0 2 \<and>
          (quiet sample_env 0 2 \<longrightarrow> calls_of d = replicate 2 Sleep))"
proof -
  have h: "startup_ok sample_env"
    by (simp add: startup_ok_def sample_env_def)
  show ?thesis
    by (rule conjI [OF h idle_wait_only [OF h, of fresh 2]])
qed

section \<open>Shutdown on a signal\<close>








section \<open>Failures of start-up and the exception policy of main\<close>

text \<open>
  C4. When \<^verbatim>\<open>setup_folders\<close> raises an \<^verbatim>\<open>IOError\<close> (or an instance of any other
  subclass of \<^verbatim>\<open>Exception\<close>) after the database was initialised and the watcher created,
  start-up is over: the error is logged as \<^verbatim>\<open>Unexpected error: ...\<close>, the process exits
  with status 1, and \<^verbatim>\<open>setup_folders\<close> is the last call of the run.
\<close>

theorem folder_setup_failure_is_fatal:
  assumes "setup_logging_out env = None" and "new_manager_out env = Returns ()"
    and "connect_out env = Returns True" and "create_all_tables_out env = Returns True"
    and "disconnect_out env = Returns ()" and "new_watcher_out env = Returns ()"
    and "setup_folders_out env = Raises (Exception c m)"
  shows "fst (run env fuel p) = Some (Exited 1) \<and>
         errors_logged (new_events p (snd (run env fuel p))) = [''Unexpected error: '' @ m] \<and>
         calls_of (new_events p (snd (run env fuel p))) =
           [NewDatabaseManager, Connect, CreateAllTables, Disconnect, NewFolderWatcher, SetupFolders]"
  using assms
  by (simp add: run_def main_def except_clauses_def try_block_def initialize_database_def
        init_try_finally_def init_try_body_def new_events_def)

theorem folder_setup_failure_is_fatal_witness:
  "setup_logging_out denied_env = None \<and> new_manager_out denied_env = Returns () \<and>
   connect_out denied_env = Returns True \<and> create_all_tables_out denied_env = Returns True \<and>
   disconnect_out denied_env = Returns () \<and> new_watcher_out denied_env = Returns () \<and>
   setup_folders_out denied_env = Raises (Exception ''IOError'' ''Permission denied'') \<and>
   fst (run denied_env 3 fresh) = Some (Exited 1) \<and>
   errors_logged (new_events fresh (snd (run denied_env 3 fresh))) =
     [''Unexpected error: '' @ ''Permission denied''] \<and>
   calls_of (new_events fresh (snd (run denied_env 3 fresh))) =
     [NewDatabaseManager, Connect, CreateAllTables, Disconnect, NewFolderWatcher, SetupFolders]"
proof -
  have h: "setup_logging_out denied_env = None" "new_manager_out denied_env = Returns ()"
    "connect_out denied_env = Returns True" "create_all_tables_out denied_env = Returns True"
    "disconnect_out denied_env = Returns ()" "new_watcher_out denied_env = Returns ()"
    "setup_folders_out denied_env = Raises (Exception ''IOError'' ''Permission denied'')"
    by (simp_all add: denied_env_def sample_env_def)
  show ?thesis
    using folder_setup_failure_is_fatal [OF h, of 3 fresh] h by blast
qed

lemma try_denied:
  "fst (try_block denied_env 3
      (emit (Log INFO ''Starting Employee Management System - Folder Watcher'') fresh)) =
   Some (Exception ''IOError'' ''Permission denied'')"
  by (simp add: try_block_def initialize_database_def init_try_finally_def init_try_body_def
        denied_env_def
        sample_env_def)

lemma try_interrupted:
  "fst (try_block interrupted_env 3
      (emit (Log INFO ''Starting Employee Management System - Folder Watcher'') fresh)) =
   Some KeyboardInterrupt \<and>
   stop_watching_out interrupted_env = None"
  by (simp add: try_block_def initialize_database_def init_try_finally_def init_try_body_def
        interrupted_env_def
        sample_env_def numeral_3_eq_3)

text \<open>
  C10, as the code has it. Whatever leaves the \<^verbatim>\<open>try\<close> block of \<^verbatim>\<open>main\<close>, during
  start-up or while running: an instance of \<^verbatim>\<open>Exception\<close> is logged as an error and the
  exit status is 1; a \<^verbatim>\<open>KeyboardInterrupt\<close> is logged and handed to
  \<^verbatim>\<open>signal_handler\<close>, whose state is the final one, and the exit status is 0 when no
  watcher exists yet or \<^verbatim>\<open>stop_watching\<close> returns, while an exception of
  \<^verbatim>\<open>stop_watching\<close> raised inside the clause leaves \<^verbatim>\<open>main\<close> uncaught; a
  \<^verbatim>\<open>SystemExit\<close> passes both clauses, nothing more is logged, and its status is the exit
  status.
\<close>

theorem main_exception_policy:
  assumes "setup_logging_out env = None"
    and "try_block env fuel
           (emit (Log INFO ''Starting Employee Management System - Folder Watcher'') p) = (Some e, p1)"
  shows "(\<forall>c m. e = Exception c m \<longrightarrow>
            run env fuel p = (Some (Exited 1), emit (Log ERROR (''Unexpected error: '' @ m)) p1)) \<and>
         (e = KeyboardInterrupt \<longrightarrow>
            snd (run env fuel p) =
              snd (signal_handler env None (emit (Log INFO ''Keyboard interrupt received'') p1)) \<and>
            (watcher p1 = None \<or> stop_watching_out env = None \<longrightarrow>
               fst (run env fuel p) = Some (Exited 0)) \<and>
            (\<forall>x. watcher p1 \<noteq> None \<and> stop_watching_out env = Some x \<longrightarrow>
               fst (run env fuel p) = Some (ending_of x))) \<and>
         (\<forall>n. e = SystemExit n \<longrightarrow> run env fuel p = (Some (Exited n), p1))"
  using assms
  by (auto simp: run_def main_def except_clauses_def signal_handler_def Let_def
        split: prod.splits option.splits)

theorem main_exception_policy_witness:
  "setup_logging_out denied_env = None \<and>
   fst (try_block denied_env 3
      (emit (Log INFO ''Starting Employee Management System - Folder Watcher'') fresh)) =
     Some (Exception ''IOError'' ''Permission denied'') \<and>
   fst (run denied_env 3 fresh) = Some (Exited 1) \<and>
   setup_logging_out interrupted_env = None \<and>
   fst (try_block interrupted_env 3
      (emit (Log INFO ''Starting Employee Management System - Folder Watcher'') fresh)) =
     Some KeyboardInterrupt \<and>
   fst (run interrupted_env 3 fresh) = Some (Exited 0)"
proof -
  let ?p = "emit (Log INFO ''Starting Employee Management System - Folder Watcher'') fresh"
  have h1: "setup_logging_out denied_env = None"
    and h2: "setup_logging_out interrupted_env = None"
    by (simp_all add: denied_env_def interrupted_env_def sample_env_def)
  have t1: "try_block denied_env 3 ?p =
      (Some (Exception ''IOError'' ''Permission denied''), snd (try_block denied_env 3 ?p))"
    using try_denied by (simp add: prod_eq_iff)
  have t2: "try_block interrupted_env 3 ?p =
      (Some KeyboardInterrupt, snd (try_block interrupted_env 3 ?p))"
    using try_interrupted by (simp add: prod_eq_iff)
  have r1: "fst (run denied_env 3 fresh) = Some (Exited 1)"
    using main_exception_policy [OF h1 t1] by simp
  have r2: "fst (run interrupted_env 3 fresh) = Some (Exited 0)"
    using main_exception_policy [OF h2 t2] try_interrupted by simp
  show ?thesis
    using h1 h2 try_denied try_interrupted r1 r2 by blast
qed

text \<open>
  The claim as it stands fails twice. A \<^verbatim>\<open>SystemExit\<close> that is not a
  \<^verbatim>\<open>KeyboardInterrupt\<close> leaves the \<^verbatim>\<open>try\<close> (here \<^verbatim>\<open>setup_folders\<close> calls
  \<^verbatim>\<open>sys.exit(3)\<close>): no error is logged and the exit status is 3. And a
  \<^verbatim>\<open>KeyboardInterrupt\<close> in the idle wait, with a \<^verbatim>\<open>stop_watching\<close> that raises, ends
  in a traceback, not in status 0.
\<close>

theorem uncaught_exceptions_outside_the_policy:
  "fst (try_block sysexit_env 3
      (emit (Log INFO ''Starting Employee Management System - Folder Watcher'') fresh)) =
     Some (SystemExit 3) \<and>
   fst (run sysexit_env 3 fresh) = Some (Exited 3) \<and>
   errors_logged (new_events fresh (snd (run sysexit_env 3 fresh))) = [] \<and>
   fst (try_block interrupted_stop_raises_env 3
      (emit (Log INFO ''Starting Employee Management System - Folder Watcher'') fresh)) =
     Some KeyboardInterrupt \<and>
   fst (run interrupted_stop_raises_env 3 fresh) =
     Some (Traceback (Exception ''RuntimeError'' ''observer failed''))"
proof -
  let ?p = "emit (Log INFO ''Starting Employee Management System - Folder Watcher'') fresh"
  have a: "fst (try_block sysexit_env 3 ?p) = Some (SystemExit 3)"
    by (simp add: try_block_def initialize_database_def init_try_finally_def init_try_body_def
          sysexit_env_def sample_env_def)
  have a': "errors_logged (new_events fresh (snd (try_block sysexit_env 3 ?p))) = []"
    by (simp add: try_block_def initialize_database_def init_try_finally_def init_try_body_def
          sysexit_env_def sample_env_def new_events_def fresh_def)
  have b: "fst (try_block interrupted_stop_raises_env 3 ?p) = Some KeyboardInterrupt"
    by (simp add: try_block_def initialize_database_def init_try_finally_def init_try_body_def
          interrupted_stop_raises_env_def interrupted_env_def sample_env_def numeral_3_eq_3)
  have bw: "watcher (snd (try_block interrupted_stop_raises_env 3 ?p)) \<noteq> None"
    by (simp add: try_block_def initialize_database_def init_try_finally_def init_try_body_def
          interrupted_stop_raises_env_def interrupted_env_def sample_env_def numeral_3_eq_3
          start_watching_def)
  have s: "setup_logging_out sysexit_env = None"
      "setup_logging_out interrupted_stop_raises_env = None"
      "stop_watching_out interrupted_stop_raises_env =
         Some (Exception ''RuntimeError'' ''observer failed'')"
    by (simp_all add: sysexit_env_def interrupted_stop_raises_env_def interrupted_env_def
          sample_env_def)
  obtain p1 where t1: "try_block sysexit_env 3 ?p = (Some (SystemExit 3), p1)"
    using a by (cases "try_block sysexit_env 3 ?p") auto
  obtain p2 where t2: "try_block interrupted_stop_raises_env 3 ?p = (Some KeyboardInterrupt, p2)"
    using b by (cases "try_block interrupted_stop_raises_env 3 ?p") auto
  have r1: "run sysexit_env 3 fresh = (Some (Exited 3), p1)"
    using t1 s(1) by (simp add: run_def main_def except_clauses_def)
  have w2: "watcher p2 \<noteq> None"
    using bw t2 by simp
  have r2: "fst (run interrupted_stop_raises_env 3 fresh) =
      Some (Traceback (Exception ''RuntimeError'' ''observer failed''))"
    using t2 w2 s(2,3)
    by (auto simp: run_def main_def except_clauses_def signal_handler_def Let_def)
  show ?thesis
    using a a' b r1 r2 t1 by simp
qed

section \<open>The per-file path: idempotence\<close>





lemma ledger_process_file_mono: "set (ledger s) \<subseteq> set (ledger (process_file env ph f s))"
  by (auto simp: process_file_def Let_def mark_failed_def mark_processed_def
        split: sum.splits)








section \<open>A failing file does not stop the watcher\<close>



lemma sleeps_snoc:
  "sleeps env i (Suc n) q = emit (Call Sleep) (listener env (i + n) (sleeps env i n q))"
proof (induction n arbitrary: i q)
  case 0
  show ?case by simp
next
  case (Suc n)
  have "sleeps env i (Suc (Suc n)) q =
        sleeps env (Suc i) (Suc n) (emit (Call Sleep) (listener env i q))"
    by simp
  also have "\<dots> = emit (Call Sleep)
       (listener env (Suc i + n) (sleeps env (Suc i) n (emit (Call Sleep) (listener env i q))))"
    by (rule Suc.IH)
  finally show ?case by simp
qed

lemma sleeping_state_0 [simp]: "sleeping_state env 0 p = watching_state env p"
  by (simp add: sleeping_state_def)

lemma sleeping_state_Suc:
  "sleeping_state env (Suc n) p = emit (Call Sleep) (listener env n (sleeping_state env n p))"
  using sleeps_snoc [of env 0 n] by (simp add: sleeping_state_def)

lemma sleeping_state_watcher [simp]: "watcher (sleeping_state env n p) = Some Watching"
  by (induction n) (simp_all add: sleeping_state_Suc watching_state_watcher)


lemma grows_refl [simp]: "grows s s"
  by (simp add: grows_def)



lemma grows_process_file: "grows s (process_file env ph f s)"
  by (simp add: grows_def process_file_extends ledger_process_file_mono)



lemma grows_watcher_update [simp]: "grows s (t\<lparr>watcher := w\<rparr>) = grows s t"
  and grows_watcher_update_left [simp]: "grows (s\<lparr>watcher := w\<rparr>) t = grows s t"
  by (simp_all add: grows_def)





















end
